theory Spec2Isabelle
  imports Complex_Main "HOL-Library.Sublist"
begin

section \<open>JavaScript string primitives\<close>

text \<open>
  Strings are lists of code units. The model covers code units 0 to 255 (the Latin-1
  range), which is what \<^typ>\<open>char\<close> holds; \<open>length\<close> is then JavaScript's
  \<open>.length\<close>.
\<close>

definition code_unit :: "char \<Rightarrow> nat" where
  "code_unit c = of_char c"

text \<open>The regular-expression class \<open>\w\<close>: \<open>[A-Za-z0-9_]\<close>.\<close>

definition isWordChar :: "char \<Rightarrow> bool" where
  "isWordChar c =
     (let n = code_unit c
      in (48 \<le> n \<and> n \<le> 57) \<or> (65 \<le> n \<and> n \<le> 90) \<or> n = 95 \<or> (97 \<le> n \<and> n \<le> 122))"

text \<open>
  The class \<open>\s\<close>, which is also what \<open>trim()\<close> removes: tab, line feed, vertical
  tab, form feed, carriage return, space and (in this range) the no-break space.
\<close>

definition isSpaceChar :: "char \<Rightarrow> bool" where
  "isSpaceChar c = (let n = code_unit c in (9 \<le> n \<and> n \<le> 13) \<or> n = 32 \<or> n = 160)"

text \<open>
  \<open>toLowerCase()\<close> on one code unit: A to Z, and the Latin-1 capitals
  U+00C0 to U+00DE without the multiplication sign U+00D7, move up by 32.
\<close>

definition toLowerChar :: "char \<Rightarrow> char" where
  "toLowerChar c =
     (let n = code_unit c
      in if (65 \<le> n \<and> n \<le> 90) \<or> (192 \<le> n \<and> n \<le> 222 \<and> n \<noteq> 215)
         then char_of (n + 32) else c)"

definition toLowerCase :: "string \<Rightarrow> string" where
  "toLowerCase s = map toLowerChar s"

text \<open>\<open>.replace(/[^\w\s]/g, '')\<close>\<close>

definition removePunctuation :: "string \<Rightarrow> string" where
  "removePunctuation s = filter (\<lambda>c. isWordChar c \<or> isSpaceChar c) s"

text \<open>\<open>.replace(/\s+/g, ' ')\<close>: every maximal run of whitespace becomes one space.\<close>

function normalizeWhitespace :: "string \<Rightarrow> string" where
  "normalizeWhitespace [] = []"
| "normalizeWhitespace (c # cs) =
     (if isSpaceChar c then CHR '' '' # normalizeWhitespace (dropWhile isSpaceChar cs)
      else c # normalizeWhitespace cs)"
  by pat_completeness auto
termination
  by (relation "measure length") (auto simp: le_imp_less_Suc length_dropWhile_le)

text \<open>\<open>.trim()\<close>\<close>

definition trim :: "string \<Rightarrow> string" where
  "trim s = rev (dropWhile isSpaceChar (rev (dropWhile isSpaceChar s)))"

text \<open>\<open>a.includes(b)\<close>: does \<open>b\<close> occur in \<open>a\<close> as a contiguous substring?\<close>

fun str_includes :: "string \<Rightarrow> string \<Rightarrow> bool" where
  "str_includes [] b = (b = [])"
| "str_includes (c # cs) b = (prefix b (c # cs) \<or> str_includes cs b)"

text \<open>\<open>a.startsWith(b)\<close>\<close>

definition startsWith :: "string \<Rightarrow> string \<Rightarrow> bool" where
  "startsWith a b = prefix b a"


section \<open>The public feed of Home.jsx\<close>

text \<open>An entry of the response of \<open>/scans/recent-scams/public\<close>, with the fields the page reads.\<close>

record scam =
  scam_id :: nat
  classification :: string
  risk_score :: real
  anonymized_content :: string
  suspicious_terms :: "string list"
  scan_count :: nat

subsection \<open>The dangerous filter\<close>

definition isDangerousClassification :: "scam \<Rightarrow> bool" where
  "isDangerousClassification s =
     (classification s = ''dangerous'' \<or> classification s = ''high''
      \<or> classification s = ''critical'')"

text \<open>
  The filter's \<open>riskScore\<close>:
  \<open>scam.risk_score > 1 ? scam.risk_score : scam.risk_score * 100\<close>.
  The arithmetic is exact (real numbers).
\<close>

definition scamRiskScore :: "scam \<Rightarrow> real" where
  "scamRiskScore s = (if risk_score s > 1 then risk_score s else risk_score s * 100)"

definition isHighRiskScore :: "scam \<Rightarrow> bool" where
  "isHighRiskScore s = (scamRiskScore s \<ge> 70)"

definition dangerousScams :: "scam list \<Rightarrow> scam list" where
  "dangerousScams scams = filter (\<lambda>s. isDangerousClassification s \<and> isHighRiskScore s) scams"

subsection \<open>The deduplication filter\<close>

definition normalizeContent :: "string \<Rightarrow> string" where
  "normalizeContent content =
     trim (normalizeWhitespace (removePunctuation (toLowerCase content)))"

text \<open>
  The callback of \<open>array.findIndex\<close>: is \<open>otherScam\<close> similar to the current \<open>scam\<close>?
\<close>

definition isSimilar :: "scam \<Rightarrow> scam \<Rightarrow> bool" where
  "isSimilar scam otherScam =
     (let currentNormalized = normalizeContent (anonymized_content scam);
          otherNormalized = normalizeContent (anonymized_content otherScam)
      in if currentNormalized = otherNormalized then True
         else
           let minLength = min (length currentNormalized) (length otherNormalized);
               maxLength = max (length currentNormalized) (length otherNormalized)
           in if minLength > 20
              then (let lengthRatio = real minLength / real maxLength
                    in if lengthRatio > 0.8
                       then str_includes currentNormalized otherNormalized
                            \<or> str_includes otherNormalized currentNormalized
                       else False)
              else False)"

text \<open>\<open>Array.prototype.findIndex\<close>: the index of the first match, or \<open>-1\<close>.\<close>

fun findIndexFrom :: "('a \<Rightarrow> bool) \<Rightarrow> 'a list \<Rightarrow> nat \<Rightarrow> int" where
  "findIndexFrom p [] i = - 1"
| "findIndexFrom p (x # xs) i = (if p x then int i else findIndexFrom p xs (Suc i))"

definition findIndex :: "('a \<Rightarrow> bool) \<Rightarrow> 'a list \<Rightarrow> int" where
  "findIndex p xs = findIndexFrom p xs 0"

text \<open>\<open>array.filter((element, index, array) => ...)\<close>\<close>

definition filterIndexed :: "('a \<Rightarrow> nat \<Rightarrow> 'a list \<Rightarrow> bool) \<Rightarrow> 'a list \<Rightarrow> 'a list" where
  "filterIndexed f array =
     map fst (filter (\<lambda>(x, i). f x i array) (zip array [0 ..< length array]))"

definition keepFirst :: "scam \<Rightarrow> nat \<Rightarrow> scam list \<Rightarrow> bool" where
  "keepFirst scam index array = (findIndex (isSimilar scam) array = int index)"

definition deduplicatedScams :: "scam list \<Rightarrow> scam list" where
  "deduplicatedScams array = filterIndexed keepFirst array"

subsection \<open>Pagination and the state of the page\<close>

text \<open>
  \<open>Array.prototype.slice(start, end)\<close>: a negative index counts from the end, and
  both are clamped to the array.
\<close>

definition js_slice :: "'a list \<Rightarrow> int \<Rightarrow> int \<Rightarrow> 'a list" where
  "js_slice xs startIndex endIndex =
     (let len = int (length xs);
          k = (if startIndex < 0 then max (len + startIndex) 0 else min startIndex len);
          final = (if endIndex < 0 then max (len + endIndex) 0 else min endIndex len)
      in take (nat (final - k)) (drop (nat k) xs))"

definition scamsPerPage :: int where
  "scamsPerPage = 3"

record home_state =
  recentScams :: "scam list"
  allScams :: "scam list"
  currentPage :: int
  loadingScams :: bool

definition initialHome :: home_state where
  "initialHome = \<lparr>recentScams = [], allScams = [], currentPage = 0, loadingScams = True\<rparr>"

definition updateDisplayedScams :: "scam list \<Rightarrow> int \<Rightarrow> home_state \<Rightarrow> home_state" where
  "updateDisplayedScams scams page st =
     (let startIndex = page * scamsPerPage; endIndex = startIndex + scamsPerPage
      in st\<lparr>recentScams := js_slice scams startIndex endIndex\<rparr>)"

text \<open>\<open>Math.ceil(n / scamsPerPage)\<close>\<close>

definition pageCount :: "scam list \<Rightarrow> int" where
  "pageCount scams = \<lceil>real (length scams) / real_of_int scamsPerPage\<rceil>"

text \<open>
  \<open>fetchRecentScams(showLoading)\<close>. The response is \<open>Some scams\<close> when the request
  answered with \<open>response.ok\<close>, and \<open>None\<close> when it did not or the request threw: then
  only the loading flag changes. \<open>page\<close> is the \<open>currentPage\<close> the function closed over.
\<close>

definition fetchRecentScams :: "bool \<Rightarrow> int \<Rightarrow> scam list option \<Rightarrow> home_state \<Rightarrow> home_state" where
  "fetchRecentScams showLoading page response st =
     (let st1 = (if showLoading then st\<lparr>loadingScams := True\<rparr> else st);
          st2 = (case response of
                   None \<Rightarrow> st1
                 | Some scams \<Rightarrow>
                     let dangerous = dangerousScams scams;
                         deduplicated = deduplicatedScams dangerous;
                         maxPages = pageCount deduplicated;
                         newCurrentPage = (if page \<ge> maxPages then 0 else page);
                         st' = st1\<lparr>allScams := deduplicated\<rparr>;
                         st'' = (if newCurrentPage \<noteq> page
                                 then st'\<lparr>currentPage := newCurrentPage\<rparr> else st')
                     in updateDisplayedScams deduplicated newCurrentPage st'')
      in if showLoading then st2\<lparr>loadingScams := False\<rparr> else st2)"

text \<open>The effect on \<open>[currentPage, allScams]\<close>, run after a change of either.\<close>

definition pageEffect :: "home_state \<Rightarrow> home_state" where
  "pageEffect st =
     (if length (allScams st) > 0 then updateDisplayedScams (allScams st) (currentPage st) st
      else st)"

definition handlePreviousPage :: "home_state \<Rightarrow> home_state" where
  "handlePreviousPage st = st\<lparr>currentPage := max 0 (currentPage st - 1)\<rparr>"

definition handleNextPage :: "home_state \<Rightarrow> home_state" where
  "handleNextPage st =
     (let maxPage = pageCount (allScams st) - 1
      in st\<lparr>currentPage := min maxPage (currentPage st + 1)\<rparr>)"

text \<open>
  What a user or the timer can do to the page. A fetch that stores a new list and a
  page turn are followed by the effect; a failed fetch changes neither of the two
  values the effect depends on.
\<close>

datatype home_event =
    Fetch bool int "scam list option"
  | PreviousPage
  | NextPage

fun home_step :: "home_state \<Rightarrow> home_event \<Rightarrow> home_state" where
  "home_step st (Fetch showLoading page None) = fetchRecentScams showLoading page None st"
| "home_step st (Fetch showLoading page (Some scams)) =
     pageEffect (fetchRecentScams showLoading page (Some scams) st)"
| "home_step st PreviousPage = pageEffect (handlePreviousPage st)"
| "home_step st NextPage = pageEffect (handleNextPage st)"

definition home_run :: "home_event list \<Rightarrow> home_state" where
  "home_run evs = foldl home_step initialHome evs"

text \<open>
  The Recent Scam Alerts section is rendered under
  \<open>!loadingScams && recentScams.length > 0\<close>, one card per entry of \<open>recentScams\<close>.
\<close>

definition shownAlerts :: "home_state \<Rightarrow> scam list" where
  "shownAlerts st = (if \<not> loadingScams st \<and> length (recentScams st) > 0 then recentScams st else [])"

text \<open>An entry is high-risk when it passes both tests of the dangerous filter.\<close>

definition highRisk :: "scam \<Rightarrow> bool" where
  "highRisk e = (isDangerousClassification e \<and> scamRiskScore e \<ge> 70)"

text \<open>The invariant of the page state: both lists hold high-risk entries only.\<close>

definition feedInvariant :: "home_state \<Rightarrow> bool" where
  "feedInvariant st = (list_all highRisk (allScams st) \<and> list_all highRisk (recentScams st))"

subsection \<open>Rendering of the risk score\<close>

text \<open>\<open>Math.round\<close>: the nearest integer, a half rounding up.\<close>

definition Math_round :: "real \<Rightarrow> int" where
  "Math_round x = \<lfloor>x + 1 / 2\<rfloor>"

text \<open>The decimal numeral React renders for an integer.\<close>

definition digitChar :: "nat \<Rightarrow> char" where
  "digitChar d = ''0123456789'' ! d"

fun showNat :: "nat \<Rightarrow> string" where
  "showNat n = (if n < 10 then [digitChar n] else showNat (n div 10) @ [digitChar (n mod 10)])"

definition showInt :: "int \<Rightarrow> string" where
  "showInt i = (if i < 0 then CHR ''-'' # showNat (nat (- i)) else showNat (nat i))"

text \<open>Reading a decimal numeral back, to say which number a rendered text shows.\<close>

definition readNat :: "string \<Rightarrow> nat" where
  "readNat ds = foldl (\<lambda>acc c. acc * 10 + (of_char c - 48)) 0 ds"

text \<open>
  The expression \<open>scam.risk_score > 1 ? scam.risk_score : scam.risk_score * 100\<close> as
  the card writes it out again, and the badge \<open>{Math.round(...)}%\<close>.
\<close>

definition displayedRiskScore :: "scam \<Rightarrow> real" where
  "displayedRiskScore s = (if risk_score s > 1 then risk_score s else risk_score s * 100)"

definition riskBadgeText :: "scam \<Rightarrow> string" where
  "riskBadgeText s = showInt (Math_round (displayedRiskScore s)) @ ''%''"

definition riskBadgeClass :: "scam \<Rightarrow> string" where
  "riskBadgeClass s =
     (if displayedRiskScore s > 70 then ''bg-red-100 text-red-800''
      else ''bg-orange-100 text-orange-800'')"


section \<open>The message detector (PhishingDetector)\<close>

subsection \<open>Values that may be missing\<close>

text \<open>
  A field of a JSON response is \<open>None\<close> when it is missing (\<open>undefined\<close> or \<open>null\<close>).
  \<open>a || b\<close> yields \<open>b\<close> when \<open>a\<close> is falsy: missing, the empty string, or the number 0.
\<close>

definition or_string :: "string option \<Rightarrow> string \<Rightarrow> string" where
  "or_string a b = (case a of None \<Rightarrow> b | Some v \<Rightarrow> if v = [] then b else v)"

definition or_number :: "real option \<Rightarrow> real \<Rightarrow> real" where
  "or_number a b = (case a of None \<Rightarrow> b | Some v \<Rightarrow> if v = 0 then b else v)"

definition or_list :: "'a list option \<Rightarrow> 'a list \<Rightarrow> 'a list" where
  "or_list a b = (case a of None \<Rightarrow> b | Some v \<Rightarrow> v)"

subsection \<open>Results\<close>

text \<open>The response of \<open>scansAPI.createScan\<close> and of \<open>/predict\<close>.\<close>

record scan_response =
  resp_classification :: "string option"
  resp_risk_score :: "real option"
  resp_language :: "string option"
  resp_explanation :: "string option"
  resp_suspicious_terms :: "string list option"
  resp_is_safe :: "bool option"

text \<open>The object passed to \<open>setResult\<close>.\<close>

record detector_result =
  res_prediction :: string
  res_confidence :: real
  res_risk_score :: real
  res_language :: string
  res_explanation :: string
  res_suspicious_terms :: "string list"
  res_classification :: string
  res_is_safe :: bool

text \<open>
  The mapping of the authenticated path and of the direct path for anonymous users
  (the two write the same object).
\<close>

definition scanResultToResult :: "scan_response \<Rightarrow> detector_result" where
  "scanResultToResult scanResult =
     \<lparr>res_prediction = or_string (resp_classification scanResult) ''unknown'',
      res_confidence = or_number (resp_risk_score scanResult) 0,
      res_risk_score = or_number (resp_risk_score scanResult) 0,
      res_language = or_string (resp_language scanResult) ''english'',
      res_explanation = or_string (resp_explanation scanResult) ''Analysis completed'',
      res_suspicious_terms = or_list (resp_suspicious_terms scanResult) [],
      res_classification = or_string (resp_classification scanResult) ''unknown'',
      res_is_safe = (resp_classification scanResult = Some ''safe''
                     \<or> resp_is_safe scanResult = Some True)\<rparr>"

text \<open>The mapping of the fallback to \<open>/predict\<close> after the scans API failed.\<close>

definition fallbackToResult :: "scan_response \<Rightarrow> detector_result" where
  "fallbackToResult data =
     \<lparr>res_prediction = or_string (resp_classification data) ''unknown'',
      res_confidence = or_number (resp_risk_score data) 0,
      res_risk_score = or_number (resp_risk_score data) 0,
      res_language = or_string (resp_language data) ''english'',
      res_explanation = or_string (resp_explanation data) ''Analysis completed'',
      res_suspicious_terms = or_list (resp_suspicious_terms data) [],
      res_classification = or_string (resp_classification data) ''unknown'',
      res_is_safe = (resp_classification data = Some ''safe'')\<rparr>"

text \<open>The headline of the result card.\<close>

definition resultHeadline :: "detector_result \<Rightarrow> string" where
  "resultHeadline r = (if res_is_safe r then ''LEGITIMATE MESSAGE'' else ''POTENTIAL SCAM'')"

subsection \<open>The state of the component\<close>

record detector_state =
  message :: string
  result :: "detector_result option"
  loading :: bool
  error :: string

subsection \<open>Colours by score, and the CERT button\<close>




subsection \<open>The request\<close>

record scan_request =
  content :: string
  scan_type :: string

text \<open>
  The first request of an analysis: \<open>scansAPI.createScan({content, scan_type})\<close> for a
  signed-in user, \<open>POST /predict\<close> with \<open>{message}\<close> otherwise.
\<close>

datatype analysis_request =
    CreateScan scan_request
  | Predict string

definition request_text :: "analysis_request \<Rightarrow> string" where
  "request_text rq = (case rq of CreateScan r \<Rightarrow> content r | Predict m \<Rightarrow> m)"

text \<open>
  \<open>analyzeMessage\<close> up to the first request: the new state, and the request sent
  (\<open>None\<close> when the function returned before any). \<open>authenticated\<close> stands for
  \<open>isAuthenticated && user\<close>.
\<close>

definition analyzeMessage ::
  "bool \<Rightarrow> detector_state \<Rightarrow> detector_state \<times> analysis_request option" where
  "analyzeMessage authenticated st =
     (if trim (message st) = []
      then (st\<lparr>error := ''Please enter a message to analyze''\<rparr>, None)
      else (st\<lparr>loading := True, error := [], result := None\<rparr>,
            Some (if authenticated
                  then CreateScan \<lparr>content = trim (message st), scan_type = ''message''\<rparr>
                  else Predict (trim (message st)))))"

text \<open>
  The textarea's \<open>onChange\<close> hands the field's text to \<open>setMessage\<close>, which stores it
  as it is. The field carries the attribute \<open>maxLength={5000}\<close>, by which the browser
  limits what a user types; the handler and \<open>analyzeMessage\<close> check no length.
\<close>

definition maxLength :: nat where
  "maxLength = 5000"

definition onChangeMessage :: "string \<Rightarrow> detector_state \<Rightarrow> detector_state" where
  "onChangeMessage fieldText st = st\<lparr>message := fieldText\<rparr>"

text \<open>
  An entry of the scan history: the fields of a response, and the scanned text under
  \<open>content\<close> or \<open>message\<close>.
\<close>

record history_scan = scan_response +
  hist_content :: "string option"
  hist_message :: "string option"

text \<open>
  \<open>handleHistoryClick\<close>: the message becomes \<open>scan.content || scan.message || ''\<close>, the
  result is rebuilt from the entry, and the error is cleared.
\<close>

definition handleHistoryClick :: "history_scan \<Rightarrow> detector_state \<Rightarrow> detector_state" where
  "handleHistoryClick scan st =
     (let historicalResult =
            \<lparr>res_prediction = or_string (resp_classification scan) ''unknown'',
             res_confidence = or_number (resp_risk_score scan) 0,
             res_risk_score = or_number (resp_risk_score scan) 0,
             res_language = or_string (resp_language scan) ''english'',
             res_explanation = or_string (resp_explanation scan) ''Historical scan result'',
             res_suspicious_terms = or_list (resp_suspicious_terms scan) [],
             res_classification = or_string (resp_classification scan) ''unknown'',
             res_is_safe = (resp_is_safe scan = Some True
                            \<or> resp_classification scan = Some ''safe'')\<rparr>
      in st\<lparr>message := or_string (hist_content scan) (or_string (hist_message scan) []),
            result := Some historicalResult,
            error := []\<rparr>)"


section \<open>The QR scanner (QRScanner)\<close>

record upload_file =
  file_type :: string
  file_size :: nat

record combined_assessment =
  final_risk_level :: "string option"
  final_risk_score :: "real option"

record qr_scan_result =
  combined :: "combined_assessment option"

record qr_state =
  qr_scanResult :: "qr_scan_result option"
  qr_error :: string

text \<open>
  \<open>handleFileUpload\<close>: the new state, and the file handed to \<open>analyzeQRCode\<close>
  (\<open>None\<close> when the function returned before the call). The argument is
  \<open>event.target.files[0]\<close>, missing when no file was chosen.
\<close>

definition handleFileUpload :: "upload_file option \<Rightarrow> qr_state \<Rightarrow> qr_state \<times> upload_file option" where
  "handleFileUpload file st =
     (case file of
        None \<Rightarrow> (st, None)
      | Some f \<Rightarrow>
          if \<not> startsWith (file_type f) ''image/''
          then (st\<lparr>qr_error := ''Please select an image file''\<rparr>, None)
          else if file_size f > 10 * 1024 * 1024
          then (st\<lparr>qr_error := ''File too large. Maximum size is 10MB''\<rparr>, None)
          else (st, Some f))"



section \<open>The fusion engine\<close>

text \<open>
  Modelled from the spec: the signal results of section 3. The detection backend
  (feature extractor, the three signal sources, the fusion engine behind \<open>assess()\<close>)
  is not among the sources, which hold its callers only. A signal that is unavailable
  is \<open>None\<close>.
\<close>

datatype ml_label = LabelSafe | LabelSuspicious | LabelDangerous

datatype reputation = Clean | Flagged | NoVerdict

record heuristic_signal =
  heuristic_subscore :: real
  matched_terms :: "string list"
  critical_category :: bool

record ml_signal =
  label :: ml_label
  ml_confidence :: real

record threat_intel_signal =
  verdict :: reputation
  hit_count :: nat

text \<open>
  Modelled from the spec: the assessment result of section 3, with the fourth
  classification \<open>unknown\<close> of section 4.5, and the explanation as the ordered list of
  the parts section 4.5 concatenates.
\<close>

datatype assessment_class = Safe | Suspicious | Dangerous | Unknown

datatype explanation_part =
    NoSignalAvailable
  | ThreatIntelOverride nat
  | HeuristicTerms "string list"
  | MlVerdict ml_label real

record assessment_result =
  fused_score :: int
  fused_class :: assessment_class
  fused_explanation :: "explanation_part list"

text \<open>
  Modelled from the spec: the tunable configuration of section 6. The spec gives the
  cut points and the weights; it leaves open what hit count is high and how a classifier
  or threat-intel result becomes a sub-score from 0 to 100, so these are fields.
\<close>

record fusion_config =
  suspicious_from :: int
  dangerous_from :: int
  weight_heuristic :: real
  weight_ml :: real
  weight_threat_intel :: real
  high_hit_count :: nat
  ml_subscore :: "ml_signal \<Rightarrow> real"
  threat_intel_subscore :: "threat_intel_signal \<Rightarrow> real"

text \<open>
  Modelled from the spec: the default cut points 30 and 70 and the base weights
  0.35, 0.45 and 0.20 of section 4.5.
\<close>

definition default_config ::
  "nat \<Rightarrow> (ml_signal \<Rightarrow> real) \<Rightarrow> (threat_intel_signal \<Rightarrow> real) \<Rightarrow> fusion_config" where
  "default_config hits ml ti =
     \<lparr>suspicious_from = 30, dangerous_from = 70,
      weight_heuristic = 0.35, weight_ml = 0.45, weight_threat_intel = 0.20,
      high_hit_count = hits, ml_subscore = ml, threat_intel_subscore = ti\<rparr>"

text \<open>
  Modelled from the spec: the pairs (base weight, sub-score) of the available signals.
\<close>

definition available_parts ::
  "fusion_config \<Rightarrow> heuristic_signal option \<Rightarrow> ml_signal option
     \<Rightarrow> threat_intel_signal option \<Rightarrow> (real \<times> real) list" where
  "available_parts cfg h m t =
     (case h of None \<Rightarrow> [] | Some hs \<Rightarrow> [(weight_heuristic cfg, heuristic_subscore hs)])
     @ (case m of None \<Rightarrow> [] | Some ms \<Rightarrow> [(weight_ml cfg, ml_subscore cfg ms)])
     @ (case t of None \<Rightarrow> [] | Some ts \<Rightarrow> [(weight_threat_intel cfg, threat_intel_subscore cfg ts)])"

text \<open>
  Modelled from the spec: the weighted sum, each weight rescaled by the total weight
  of the available signals, rounded to the nearest integer and clamped to 0..100.
\<close>

definition weighted_score :: "(real \<times> real) list \<Rightarrow> int" where
  "weighted_score parts =
     (let total = sum_list (map fst parts);
          s = sum_list (map (\<lambda>(w, x). w / total * x) parts)
      in max 0 (min 100 (round s)))"

text \<open>Modelled from the spec: the classification thresholds.\<close>

definition classify_score :: "fusion_config \<Rightarrow> int \<Rightarrow> assessment_class" where
  "classify_score cfg score =
     (if score < suspicious_from cfg then Safe
      else if score < dangerous_from cfg then Suspicious
      else Dangerous)"

text \<open>
  Modelled from the spec: the hard override applies when threat intelligence is
  available, its verdict is flagged and its hit count is high.
\<close>

definition flagged_high :: "fusion_config \<Rightarrow> threat_intel_signal option \<Rightarrow> bool" where
  "flagged_high cfg t =
     (case t of None \<Rightarrow> False
      | Some ts \<Rightarrow> verdict ts = Flagged \<and> hit_count ts \<ge> high_hit_count cfg)"

text \<open>
  Modelled from the spec: the second override, a floor of suspicious when the heuristic
  matched a critical-severity category.
\<close>

definition critical_floor :: "heuristic_signal option \<Rightarrow> assessment_class \<Rightarrow> assessment_class" where
  "critical_floor h c =
     (case h of None \<Rightarrow> c
      | Some hs \<Rightarrow> if critical_category hs \<and> c = Safe then Suspicious else c)"

text \<open>
  Modelled from the spec: the explanation, in priority order: override reason,
  heuristic terms, classifier label and confidence.
\<close>

definition explain ::
  "fusion_config \<Rightarrow> heuristic_signal option \<Rightarrow> ml_signal option
     \<Rightarrow> threat_intel_signal option \<Rightarrow> explanation_part list" where
  "explain cfg h m t =
     (case t of None \<Rightarrow> []
      | Some ts \<Rightarrow> if flagged_high cfg t then [ThreatIntelOverride (hit_count ts)] else [])
     @ (case h of None \<Rightarrow> [] | Some hs \<Rightarrow> [HeuristicTerms (matched_terms hs)])
     @ (case m of None \<Rightarrow> [] | Some ms \<Rightarrow> [MlVerdict (label ms) (ml_confidence ms)])"

text \<open>
  Modelled from the spec: \<open>assess()\<close> from the three signal results on. It is a total
  function: it returns a result for every combination and has no error case.
\<close>

definition assess ::
  "fusion_config \<Rightarrow> heuristic_signal option \<Rightarrow> ml_signal option
     \<Rightarrow> threat_intel_signal option \<Rightarrow> assessment_result" where
  "assess cfg h m t =
     (if h = None \<and> m = None \<and> t = None
      then \<lparr>fused_score = 0, fused_class = Unknown, fused_explanation = [NoSignalAvailable]\<rparr>
      else
        let score = weighted_score (available_parts cfg h m t);
            c = (if flagged_high cfg t then Dangerous
                 else critical_floor h (classify_score cfg score))
        in \<lparr>fused_score = score, fused_class = c, fused_explanation = explain cfg h m t\<rparr>)"


section \<open>Concrete inputs\<close>




text \<open>Feed entries for the examples.\<close>

definition alert :: "nat \<Rightarrow> string \<Rightarrow> string \<Rightarrow> real \<Rightarrow> scam" where
  "alert n c txt r =
     \<lparr>scam_id = n, classification = c, risk_score = r, anonymized_content = txt,
      suspicious_terms = [], scan_count = 1\<rparr>"

definition urgentFirst :: scam where
  "urgentFirst = alert 1 ''dangerous'' ''URGENT click here to claim prize now!!!'' 95"

definition urgentSecond :: scam where
  "urgentSecond = alert 2 ''dangerous'' ''urgent click here to claim your prize now'' 95"

definition urgentThird :: scam where
  "urgentThird = alert 3 ''dangerous'' ''Urgent: click here to claim prize now'' 95"

definition shortFirst :: scam where
  "shortFirst = alert 4 ''dangerous'' ''claim prize now'' 95"

definition shortSecond :: scam where
  "shortSecond = alert 5 ''dangerous'' ''claim prize now ok'' 95"

definition chainA :: scam where
  "chainA = alert 6 ''dangerous'' ''Your parcel is on hold'' 0.9"

definition chainB :: scam where
  "chainB = alert 7 ''critical'' ''your parcel is on hold, ok'' 88"

definition chainC :: scam where
  "chainC = alert 8 ''high'' ''Your parcel is on hold ok ok'' 75"

definition bankAlert :: scam where
  "bankAlert = alert 9 ''dangerous'' ''Bank account locked: verify at once'' 70"

definition lowScore :: scam where
  "lowScore = alert 10 ''dangerous'' ''You have won a lottery'' 0.4"

definition suspiciousOnly :: scam where
  "suspiciousOnly = alert 11 ''suspicious'' ''Confirm your delivery address'' 99"

definition fullScale :: scam where
  "fullScale = alert 12 ''dangerous'' ''Your account will be closed today'' 1"

text \<open>Signals that contradict each other, and a configuration for them.\<close>

definition flaggedIntel :: threat_intel_signal where
  "flaggedIntel = \<lparr>verdict = Flagged, hit_count = 9\<rparr>"

definition safeMl :: ml_signal where
  "safeMl = \<lparr>label = LabelSafe, ml_confidence = 1\<rparr>"

definition zeroHeuristic :: heuristic_signal where
  "zeroHeuristic = \<lparr>heuristic_subscore = 0, matched_terms = [], critical_category = False\<rparr>"

definition exampleConfig :: fusion_config where
  "exampleConfig =
     default_config 5
       (\<lambda>m. if label m = LabelSafe then 0 else 100 * ml_confidence m)
       (\<lambda>t. if verdict t = Flagged then 100 else 0)"



text \<open>Responses without a classification.\<close>

definition safeFlagOnly :: scan_response where
  "safeFlagOnly =
     \<lparr>resp_classification = None, resp_risk_score = None, resp_language = None,
      resp_explanation = None, resp_suspicious_terms = None, resp_is_safe = Some True\<rparr>"

definition emptyResponse :: scan_response where
  "emptyResponse =
     \<lparr>resp_classification = None, resp_risk_score = None, resp_language = None,
      resp_explanation = None, resp_suspicious_terms = None, resp_is_safe = None\<rparr>"


text \<open>Feed entries stored on the percentage scale, on the fraction scale, and between.\<close>

definition percentScale :: scam where
  "percentScale = alert 13 ''dangerous'' ''Pay the customs fee to release your parcel'' 85"

definition fractionScale :: scam where
  "fractionScale = alert 14 ''dangerous'' ''Your SIM card will be blocked in 24 hours'' 0.856"

definition betweenScales :: scam where
  "betweenScales = alert 15 ''dangerous'' ''Reset your banking password here'' 1.5"

text \<open>A history entry whose text has 5001 characters, and a fresh detector.\<close>

definition longScan :: history_scan where
  "longScan =
     \<lparr>resp_classification = Some ''suspicious'', resp_risk_score = Some 40,
      resp_language = None, resp_explanation = None, resp_suspicious_terms = None,
      resp_is_safe = None,
      hist_content = Some (replicate 5001 CHR ''a''), hist_message = None\<rparr>"

definition idleDetector :: detector_state where
  "idleDetector = \<lparr>message = [], result = None, loading = False, error = []\<rparr>"

text \<open>A message of whitespace only, and two uploads.\<close>

definition blankState :: detector_state where
  "blankState = \<lparr>message = [CHR '' '', CHR 0x09, CHR 0x0A, CHR '' ''], result = None,
     loading = False, error = []\<rparr>"

definition pdfFile :: upload_file where
  "pdfFile = \<lparr>file_type = ''application/pdf'', file_size = 2048\<rparr>"

definition hugeImage :: upload_file where
  "hugeImage = \<lparr>file_type = ''image/png'', file_size = 10485761\<rparr>"

definition idleScanner :: qr_state where
  "idleScanner = \<lparr>qr_scanResult = None, qr_error = []\<rparr>"

section \<open>Properties of the deduplication filter\<close>

subsection \<open>findIndex and the indexed filter\<close>

lemma findIndexFrom_eq:
  "findIndexFrom p xs i =
     (if \<exists>x\<in>set xs. p x then int (i + length (takeWhile (\<lambda>x. \<not> p x) xs)) else - 1)"
  by (induction xs arbitrary: i) auto

lemma length_takeWhile_eq_iff:
  assumes "i < length xs" and "\<not> q (xs ! i)"
  shows "length (takeWhile q xs) = i \<longleftrightarrow> (\<forall>j<i. q (xs ! j))"
proof
  assume len: "length (takeWhile q xs) = i"
  show "\<forall>j<i. q (xs ! j)"
  proof (intro allI impI)
    fix j assume "j < i"
    with len have j: "j < length (takeWhile q xs)" by simp
    then have "takeWhile q xs ! j \<in> set (takeWhile q xs)" by simp
    then have "q (takeWhile q xs ! j)" by (rule set_takeWhileD [THEN conjunct2])
    with j show "q (xs ! j)" by (simp add: takeWhile_nth)
  qed
next
  assume all: "\<forall>j<i. q (xs ! j)"
  with assms have ge: "i \<le> length (takeWhile q xs)"
    by (intro length_takeWhile_less_P_nth) auto
  have "\<not> i < length (takeWhile q xs)"
  proof
    assume lt: "i < length (takeWhile q xs)"
    then have "takeWhile q xs ! i \<in> set (takeWhile q xs)" by simp
    then have "q (takeWhile q xs ! i)" by (rule set_takeWhileD [THEN conjunct2])
    with lt have "q (xs ! i)" by (simp add: takeWhile_nth)
    with assms show False by simp
  qed
  with ge show "length (takeWhile q xs) = i" by simp
qed

lemma findIndex_eq_iff:
  assumes "i < length xs" and "p (xs ! i)"
  shows "findIndex p xs = int i \<longleftrightarrow> (\<forall>j<i. \<not> p (xs ! j))"
proof -
  from assms have ex: "\<exists>x\<in>set xs. p x" by (metis nth_mem)
  have "findIndex p xs = int i \<longleftrightarrow> length (takeWhile (\<lambda>x. \<not> p x) xs) = i"
    using ex by (simp add: findIndex_def findIndexFrom_eq)
  also have "\<dots> \<longleftrightarrow> (\<forall>j<i. \<not> p (xs ! j))"
    using assms by (intro length_takeWhile_eq_iff) auto
  finally show ?thesis .
qed

lemma isSimilar_refl: "isSimilar s s"
  by (simp add: isSimilar_def)

lemma isSimilar_sym: "isSimilar a b \<longleftrightarrow> isSimilar b a"
  by (auto simp: isSimilar_def Let_def min.commute max.commute)

lemma keepFirst_iff:
  "i < length xs \<Longrightarrow> keepFirst (xs ! i) i xs \<longleftrightarrow> (\<forall>j<i. \<not> isSimilar (xs ! i) (xs ! j))"
  unfolding keepFirst_def by (rule findIndex_eq_iff) (simp_all add: isSimilar_refl)

lemma zip_upt_nth: "zip xs [0 ..< length xs] = map (\<lambda>i. (xs ! i, i)) [0 ..< length xs]"
proof -
  have "zip xs [0 ..< length xs] = zip (map (nth xs) [0 ..< length xs]) [0 ..< length xs]"
    by (simp add: map_nth)
  also have "\<dots> = map (\<lambda>i. (xs ! i, i)) [0 ..< length xs]"
    by (simp add: zip_map1 zip_same_conv_map)
  finally show ?thesis .
qed

lemma filterIndexed_nth:
  "filterIndexed f xs = map (nth xs) (filter (\<lambda>i. f (xs ! i) i xs) [0 ..< length xs])"
  by (simp add: filterIndexed_def zip_upt_nth filter_map comp_def)

lemma filterIndexed_subseq: "subseq (filterIndexed f xs) xs"
proof -
  have "subseq (map fst (filter (\<lambda>(x, i). f x i xs) (zip xs [0 ..< length xs])))
          (map fst (zip xs [0 ..< length xs]))"
    by (intro subseq_map subseq_filter_left)
  then show ?thesis by (simp add: filterIndexed_def)
qed

lemma set_filterIndexed: "set (filterIndexed f xs) \<subseteq> set xs"
  using filterIndexed_subseq [of f xs] by (auto dest: list_emb_set)

lemma set_js_slice: "set (js_slice xs a b) \<subseteq> set xs"
  unfolding js_slice_def Let_def
  by (meson set_take_subset set_drop_subset subset_trans)


subsection \<open>Substring containment and the similarity test\<close>

lemma str_includes_iff: "str_includes a b \<longleftrightarrow> (\<exists>p s. a = p @ b @ s)"
proof (induction a)
  case Nil
  then show ?case by simp
next
  case (Cons c cs)
  show ?case
  proof
    assume "str_includes (c # cs) b"
    then consider "prefix b (c # cs)" | "str_includes cs b" by auto
    then show "\<exists>p s. c # cs = p @ b @ s"
    proof cases
      case 1
      then obtain s where "c # cs = b @ s" by (auto simp: prefix_def)
      then have "c # cs = [] @ b @ s" by simp
      then show ?thesis by blast
    next
      case 2
      with Cons.IH obtain p s where "cs = p @ b @ s" by blast
      then have "c # cs = (c # p) @ b @ s" by simp
      then show ?thesis by blast
    qed
  next
    assume "\<exists>p s. c # cs = p @ b @ s"
    then obtain p s where e: "c # cs = p @ b @ s" by blast
    show "str_includes (c # cs) b"
    proof (cases p)
      case Nil
      with e have "prefix b (c # cs)" by (simp add: prefix_def)
      then show ?thesis by simp
    next
      case (Cons d p')
      with e have "cs = p' @ b @ s" by simp
      with Cons.IH have "str_includes cs b" by blast
      then show ?thesis by simp
    qed
  qed
qed

lemma nested_if_iff:
  "(if e then True else if m then (if r then i else False) else False) \<longleftrightarrow> e \<or> (m \<and> r \<and> i)"
  by simp

subsection \<open>Normal forms of the example contents\<close>

lemma normalize_chainA:
  "normalizeContent (anonymized_content chainA) = ''your parcel is on hold''"
  by code_simp

lemma normalize_chainB:
  "normalizeContent (anonymized_content chainB) = ''your parcel is on hold ok''"
  by code_simp

lemma normalize_chainC:
  "normalizeContent (anonymized_content chainC) = ''your parcel is on hold ok ok''"
  by code_simp

lemma normalize_bankAlert:
  "normalizeContent (anonymized_content bankAlert) = ''bank account locked verify at once''"
  by code_simp

lemma normalize_shortFirst:
  "normalizeContent (anonymized_content shortFirst) = ''claim prize now''"
  by code_simp

lemma normalize_shortSecond:
  "normalizeContent (anonymized_content shortSecond) = ''claim prize now ok''"
  by code_simp

lemma normalize_contact:
  "normalizeContent ''Call 0771234567 or mail a.b@x.lk'' = ''call 0771234567 or mail abxlk''"
  by code_simp

lemma normalize_urgentFirst:
  "normalizeContent ''URGENT click here to claim prize now!!!''
     = ''urgent click here to claim prize now''"
  by code_simp

lemma normalize_urgentSecond:
  "normalizeContent ''urgent click here to claim your prize now''
     = ''urgent click here to claim your prize now''"
  by code_simp

lemma normalize_urgentThird:
  "normalizeContent ''Urgent: click here to claim prize now''
     = ''urgent click here to claim prize now''"
  by code_simp

lemmas normalize_chain = normalize_chainA normalize_chainB normalize_chainC normalize_bankAlert

lemma chain_similar:
  "isSimilar chainB chainA" "isSimilar chainC chainB" "\<not> isSimilar chainC chainA"
  by (simp_all add: isSimilar_def Let_def normalize_chain)

lemma bankAlert_dissimilar:
  "\<not> isSimilar bankAlert chainA" "\<not> isSimilar bankAlert chainB" "\<not> isSimilar bankAlert chainC"
  by (simp_all add: isSimilar_def Let_def normalize_chain)

text \<open>
  Claim C1, as amended. Two reports are similar exactly when their contents,
  normalized by \<open>normalizeContent\<close> (lower case, every character that is neither a word
  character nor whitespace removed, whitespace runs collapsed, trimmed), are equal,
  or when the shorter normalized content has more than 20 characters, the ratio of
  the shorter length to the longer exceeds 0.8, and one normalized content occurs in
  the other as a contiguous substring.
\<close>

theorem similarity_test:
  "isSimilar a b \<longleftrightarrow>
     normalizeContent (anonymized_content a) = normalizeContent (anonymized_content b)
     \<or> (20 < min (length (normalizeContent (anonymized_content a)))
                 (length (normalizeContent (anonymized_content b)))
        \<and> real (min (length (normalizeContent (anonymized_content a)))
                  (length (normalizeContent (anonymized_content b))))
           / real (max (length (normalizeContent (anonymized_content a)))
                  (length (normalizeContent (anonymized_content b)))) > 0.8
        \<and> ((\<exists>p s. normalizeContent (anonymized_content a)
                     = p @ normalizeContent (anonymized_content b) @ s)
           \<or> (\<exists>p s. normalizeContent (anonymized_content b)
                     = p @ normalizeContent (anonymized_content a) @ s)))"
  unfolding isSimilar_def Let_def str_includes_iff [symmetric]
  by (rule nested_if_iff)

theorem similarity_test_witness:
  "normalizeContent (anonymized_content chainA) \<noteq> normalizeContent (anonymized_content chainB)
   \<and> isSimilar chainA chainB"
proof -
  have ne: "normalizeContent (anonymized_content chainA)
      \<noteq> normalizeContent (anonymized_content chainB)"
    by (simp add: normalize_chain)
  have "normalizeContent (anonymized_content chainB)
      = [] @ normalizeContent (anonymized_content chainA) @ '' ok''"
    by (simp add: normalize_chain)
  then have ex: "\<exists>p s. normalizeContent (anonymized_content chainB)
      = p @ normalizeContent (anonymized_content chainA) @ s"
    by blast
  have len: "20 < min (length (normalizeContent (anonymized_content chainA)))
                 (length (normalizeContent (anonymized_content chainB)))"
    by (simp add: normalize_chain)
  have ratio: "real (min (length (normalizeContent (anonymized_content chainA)))
                  (length (normalizeContent (anonymized_content chainB))))
           / real (max (length (normalizeContent (anonymized_content chainA)))
                  (length (normalizeContent (anonymized_content chainB)))) > 0.8"
    by (simp add: normalize_chain)
  have "isSimilar chainA chainB"
    using similarity_test [of chainA chainB] ex len ratio by blast
  with ne show ?thesis by simp
qed

text \<open>
  The claim as stated fails on short contents: ``claim prize now'' and
  ``claim prize now ok'' have a length ratio of 15 to 18, above 0.8, and the second
  contains the first, yet they are not similar, the shorter having 20 characters or
  fewer. Normalization also keeps a phone number's digits and an address's letters.
\<close>

theorem similarity_test_counterexample:
  "\<not> isSimilar shortFirst shortSecond
   \<and> real (min (length (normalizeContent (anonymized_content shortFirst)))
              (length (normalizeContent (anonymized_content shortSecond))))
      / real (max (length (normalizeContent (anonymized_content shortFirst)))
              (length (normalizeContent (anonymized_content shortSecond)))) > 0.8
   \<and> str_includes (normalizeContent (anonymized_content shortSecond))
        (normalizeContent (anonymized_content shortFirst))
   \<and> normalizeContent ''Call 0771234567 or mail a.b@x.lk'' = ''call 0771234567 or mail abxlk''"
  by (simp add: isSimilar_def Let_def normalize_shortFirst normalize_shortSecond
      normalize_contact)

subsection \<open>First match wins\<close>

lemma deduplicatedScams_nth:
  "deduplicatedScams xs =
     map (nth xs) (filter (\<lambda>i. \<forall>j<i. \<not> isSimilar (xs ! i) (xs ! j)) [0 ..< length xs])"
proof -
  have "filter (\<lambda>i. keepFirst (xs ! i) i xs) [0 ..< length xs]
      = filter (\<lambda>i. \<forall>j<i. \<not> isSimilar (xs ! i) (xs ! j)) [0 ..< length xs]"
    by (rule filter_cong) (simp_all add: keepFirst_iff)
  then show ?thesis by (simp add: deduplicatedScams_def filterIndexed_nth)
qed

lemma kept_pairwise_dissimilar:
  assumes "p < q" and "q < length (deduplicatedScams xs)"
  shows "\<not> isSimilar (deduplicatedScams xs ! q) (deduplicatedScams xs ! p)"
proof -
  define ks where "ks = filter (\<lambda>i. \<forall>j<i. \<not> isSimilar (xs ! i) (xs ! j)) [0 ..< length xs]"
  have d: "deduplicatedScams xs = map (nth xs) ks"
    by (simp add: ks_def deduplicatedScams_nth)
  with assms have q: "q < length ks" and p: "p < length ks" by simp_all
  have "sorted_wrt (<) ks"
    unfolding ks_def by (intro sorted_wrt_filter) (simp add: sorted_wrt_upt)
  with assms(1) q have lt: "ks ! p < ks ! q" by (simp add: sorted_wrt_nth_less)
  from q have "ks ! q \<in> set ks" by simp
  then have "\<forall>j < ks ! q. \<not> isSimilar (xs ! (ks ! q)) (xs ! j)" by (simp add: ks_def)
  with lt have "\<not> isSimilar (xs ! (ks ! q)) (xs ! (ks ! p))" by simp
  with d p q show ?thesis by simp
qed

lemma later_of_group_dropped:
  assumes S: "S \<subseteq> {..<length xs}"
    and mutual: "\<forall>i\<in>S. \<forall>j\<in>S. isSimilar (xs ! i) (xs ! j)"
    and i: "i \<in> S" "i \<noteq> Min S"
  shows "\<not> keepFirst (xs ! i) i xs"
proof -
  from S have fin: "finite S" by (auto intro: finite_subset)
  from i have "S \<noteq> {}" by auto
  with fin have m: "Min S \<in> S" by simp
  from fin i have "Min S \<le> i" by simp
  with i have lt: "Min S < i" by simp
  from mutual i m have "isSimilar (xs ! i) (xs ! Min S)" by simp
  moreover from S i have "i < length xs" by auto
  ultimately show ?thesis using lt by (auto simp: keepFirst_iff)
qed

lemma absorbed_by_kept:
  "i < length xs \<Longrightarrow>
     \<exists>k\<le>i. keepFirst (xs ! k) k xs
        \<and> (i, k) \<in> rtrancl {(a, b). b < a \<and> a < length xs \<and> isSimilar (xs ! a) (xs ! b)}"
proof (induction i rule: less_induct)
  case (less i)
  let ?R = "{(a, b). b < a \<and> a < length xs \<and> isSimilar (xs ! a) (xs ! b)}"
  show ?case
  proof (cases "keepFirst (xs ! i) i xs")
    case True
    then show ?thesis by blast
  next
    case False
    with less.prems obtain j where j: "j < i" "isSimilar (xs ! i) (xs ! j)"
      by (auto simp: keepFirst_iff)
    with less.prems have "j < length xs" by simp
    with less.IH j obtain k where k: "k \<le> j" "keepFirst (xs ! k) k xs" "(j, k) \<in> rtrancl ?R"
      by blast
    from j less.prems have "(i, j) \<in> ?R" by simp
    with k have "(i, k) \<in> rtrancl ?R" by (meson converse_rtrancl_into_rtrancl)
    with k j show ?thesis by (intro exI [of _ k]) simp
  qed
qed

lemma group_first_iff:
  assumes S: "S \<subseteq> {..<length xs}" "S \<noteq> {}"
  shows "keepFirst (xs ! Min S) (Min S) xs
     \<longleftrightarrow> (\<forall>j<Min S. \<not> isSimilar (xs ! Min S) (xs ! j))"
proof -
  from S have "finite S" by (auto intro: finite_subset)
  with S have "Min S \<in> S" by simp
  with S have "Min S < length xs" by auto
  then show ?thesis by (rule keepFirst_iff)
qed

text \<open>
  Claim C4, as amended. The deduplication pass keeps an entry exactly when no earlier
  entry of the list is similar to it, and returns the kept entries unchanged and in
  their original order; no two kept entries are similar. Of entries that are similar
  to each other, every one after the first in insertion order is dropped, and the
  first of them is kept exactly when no earlier entry of the list is similar to it.
  Every entry of the list is linked to a kept entry at or before it by a chain of
  similar, ever earlier entries: that kept entry stands for it.
\<close>

theorem first_match_wins:
  "subseq (deduplicatedScams xs) xs
   \<and> (\<forall>i<length xs. keepFirst (xs ! i) i xs \<longleftrightarrow> (\<forall>j<i. \<not> isSimilar (xs ! i) (xs ! j)))
   \<and> deduplicatedScams xs
       = map (nth xs) (filter (\<lambda>i. \<forall>j<i. \<not> isSimilar (xs ! i) (xs ! j)) [0 ..< length xs])
   \<and> (\<forall>q<length (deduplicatedScams xs). \<forall>p<q.
         \<not> isSimilar (deduplicatedScams xs ! q) (deduplicatedScams xs ! p))
   \<and> (\<forall>S. S \<subseteq> {..<length xs} \<and> S \<noteq> {}
           \<and> (\<forall>i\<in>S. \<forall>j\<in>S. isSimilar (xs ! i) (xs ! j)) \<longrightarrow>
         (\<forall>i\<in>S. i \<noteq> Min S \<longrightarrow> \<not> keepFirst (xs ! i) i xs)
         \<and> (keepFirst (xs ! Min S) (Min S) xs
              \<longleftrightarrow> (\<forall>j<Min S. \<not> isSimilar (xs ! Min S) (xs ! j))))
   \<and> (\<forall>i<length xs. \<exists>k\<le>i. keepFirst (xs ! k) k xs
          \<and> (i, k) \<in> rtrancl {(a, b). b < a \<and> a < length xs \<and> isSimilar (xs ! a) (xs ! b)})"
proof (intro conjI)
  show "subseq (deduplicatedScams xs) xs"
    by (simp add: deduplicatedScams_def filterIndexed_subseq)
  show "\<forall>i<length xs. keepFirst (xs ! i) i xs \<longleftrightarrow> (\<forall>j<i. \<not> isSimilar (xs ! i) (xs ! j))"
    by (simp add: keepFirst_iff)
  show "deduplicatedScams xs
       = map (nth xs) (filter (\<lambda>i. \<forall>j<i. \<not> isSimilar (xs ! i) (xs ! j)) [0 ..< length xs])"
    by (rule deduplicatedScams_nth)
  show "\<forall>q<length (deduplicatedScams xs). \<forall>p<q.
         \<not> isSimilar (deduplicatedScams xs ! q) (deduplicatedScams xs ! p)"
    using kept_pairwise_dissimilar by blast
  show "\<forall>S. S \<subseteq> {..<length xs} \<and> S \<noteq> {}
           \<and> (\<forall>i\<in>S. \<forall>j\<in>S. isSimilar (xs ! i) (xs ! j)) \<longrightarrow>
         (\<forall>i\<in>S. i \<noteq> Min S \<longrightarrow> \<not> keepFirst (xs ! i) i xs)
         \<and> (keepFirst (xs ! Min S) (Min S) xs
              \<longleftrightarrow> (\<forall>j<Min S. \<not> isSimilar (xs ! Min S) (xs ! j)))"
    using later_of_group_dropped [of _ xs] group_first_iff [of _ xs] by blast
  show "\<forall>i<length xs. \<exists>k\<le>i. keepFirst (xs ! k) k xs
          \<and> (i, k) \<in> rtrancl {(a, b). b < a \<and> a < length xs \<and> isSimilar (xs ! a) (xs ! b)}"
    using absorbed_by_kept by blast
qed

theorem first_match_wins_witness:
  "{1, 2} \<subseteq> {..<length [chainA, chainB, chainC, bankAlert]}
   \<and> isSimilar chainB chainC \<and> isSimilar chainC chainB
   \<and> \<not> keepFirst chainC 2 [chainA, chainB, chainC, bankAlert]
   \<and> \<not> keepFirst chainB 1 [chainA, chainB, chainC, bankAlert]
   \<and> keepFirst bankAlert 3 [chainA, chainB, chainC, bankAlert]
   \<and> deduplicatedScams [chainA, chainB, chainC, bankAlert] = [chainA, bankAlert]
   \<and> subseq (deduplicatedScams [chainA, chainB, chainC, bankAlert])
        [chainA, chainB, chainC, bankAlert]"
proof -
  let ?xs = "[chainA, chainB, chainC, bankAlert]"
  note w = first_match_wins [of ?xs]
  have bc: "isSimilar chainB chainC" "isSimilar chainC chainB"
    using chain_similar(2) isSimilar_sym by blast+
  have sub: "{1, 2} \<subseteq> {..<length ?xs}" by simp
  have mutual: "\<forall>i\<in>{1, 2::nat}. \<forall>j\<in>{1, 2}. isSimilar (?xs ! i) (?xs ! j)"
    by (simp add: bc isSimilar_refl)
  have min: "Min {1, 2::nat} = 1" by simp
  from w have g: "\<forall>S. S \<subseteq> {..<length ?xs} \<and> S \<noteq> {}
           \<and> (\<forall>i\<in>S. \<forall>j\<in>S. isSimilar (?xs ! i) (?xs ! j)) \<longrightarrow>
         (\<forall>i\<in>S. i \<noteq> Min S \<longrightarrow> \<not> keepFirst (?xs ! i) i ?xs)
         \<and> (keepFirst (?xs ! Min S) (Min S) ?xs
              \<longleftrightarrow> (\<forall>j<Min S. \<not> isSimilar (?xs ! Min S) (?xs ! j)))"
    by blast
  from g [rule_format, of "{1, 2}"] sub mutual
  have grp: "(\<forall>i\<in>{1, 2::nat}. i \<noteq> Min {1, 2} \<longrightarrow> \<not> keepFirst (?xs ! i) i ?xs)
         \<and> (keepFirst (?xs ! Min {1, 2}) (Min {1, 2}) ?xs
              \<longleftrightarrow> (\<forall>j<Min {1, 2::nat}. \<not> isSimilar (?xs ! Min {1, 2}) (?xs ! j)))"
    by blast
  from grp min have dropC: "\<not> keepFirst chainC 2 ?xs" by simp
  from grp min have "keepFirst chainB 1 ?xs \<longleftrightarrow> (\<forall>j<1. \<not> isSimilar chainB (?xs ! j))"
    by simp
  then have dropB: "\<not> keepFirst chainB 1 ?xs" by (simp add: chain_similar)
  have "\<forall>j<3. \<not> isSimilar (?xs ! 3) (?xs ! j)"
    by (simp add: less_Suc_eq numeral_3_eq_3 all_conj_distrib bankAlert_dissimilar)
  moreover have "keepFirst (?xs ! 3) 3 ?xs \<longleftrightarrow> (\<forall>j<3. \<not> isSimilar (?xs ! 3) (?xs ! j))"
    using w [THEN conjunct2, THEN conjunct1, rule_format, of 3] by simp
  ultimately have keep: "keepFirst bankAlert 3 ?xs" by simp
  have d: "deduplicatedScams ?xs = [chainA, bankAlert]"
    by (simp add: deduplicatedScams_def filterIndexed_def keepFirst_def findIndex_def upt_rec
        chain_similar bankAlert_dissimilar isSimilar_refl)
  from w have "subseq (deduplicatedScams ?xs) ?xs" by (rule conjunct1)
  with sub bc dropB dropC keep d show ?thesis by simp
qed

text \<open>
  The claim as stated fails where similarity is not transitive: the second and the
  third of three entries are similar to each other, yet the earlier of the two is not
  kept, being similar to the first entry, and the third is dropped although it is not
  similar to the one entry that stays.
\<close>

theorem first_match_wins_counterexample:
  "isSimilar chainB chainC \<and> isSimilar chainC chainB
   \<and> \<not> keepFirst chainB 1 [chainA, chainB, chainC]
   \<and> \<not> keepFirst chainC 2 [chainA, chainB, chainC]
   \<and> \<not> isSimilar chainC chainA
   \<and> deduplicatedScams [chainA, chainB, chainC] = [chainA]"
proof -
  have bc: "isSimilar chainB chainC" "isSimilar chainC chainB"
    using chain_similar(2) isSimilar_sym by blast+
  have "\<not> keepFirst chainB 1 [chainA, chainB, chainC]"
    "\<not> keepFirst chainC 2 [chainA, chainB, chainC]"
    by (simp_all add: keepFirst_def findIndex_def chain_similar)
  moreover have "deduplicatedScams [chainA, chainB, chainC] = [chainA]"
    by (simp add: deduplicatedScams_def filterIndexed_def keepFirst_def findIndex_def upt_rec
        chain_similar isSimilar_refl)
  ultimately show ?thesis using bc chain_similar(3) by simp
qed

subsection \<open>The example of the specification\<close>

lemma deduplicatedScams_pair:
  "deduplicatedScams [a, b] = (if isSimilar b a then [a] else [a, b])"
  by (simp add: deduplicatedScams_def filterIndexed_def keepFirst_def findIndex_def
      isSimilar_refl upt_rec)

lemma urgent_not_contained:
  "\<not> str_includes ''urgent click here to claim your prize now''
        ''urgent click here to claim prize now''"
  "\<not> str_includes ''urgent click here to claim prize now''
        ''urgent click here to claim your prize now''"
  by simp_all

text \<open>
  Claim C3, as amended. Given the content ``URGENT click here to claim prize now!!!''
  followed by ``urgent click here to claim your prize now'', the two normalize to
  ``urgent click here to claim prize now'' and ``urgent click here to claim your prize
  now''; neither contains the other, so the second is not similar to the first and the
  filter keeps both entries, unchanged and in order. A second report that normalizes
  to the first one's text, such as ``Urgent: click here to claim prize now'', is
  removed as a duplicate of the first.
\<close>

theorem near_duplicate_example:
  assumes "anonymized_content a = ''URGENT click here to claim prize now!!!''"
    and "anonymized_content b = ''urgent click here to claim your prize now''"
    and "anonymized_content c = ''Urgent: click here to claim prize now''"
  shows "normalizeContent (anonymized_content a) = ''urgent click here to claim prize now''
    \<and> normalizeContent (anonymized_content b) = ''urgent click here to claim your prize now''
    \<and> \<not> isSimilar b a
    \<and> deduplicatedScams [a, b] = [a, b]
    \<and> isSimilar c a
    \<and> deduplicatedScams [a, c] = [a]"
proof -
  have na: "normalizeContent (anonymized_content a) = ''urgent click here to claim prize now''"
    by (simp only: assms normalize_urgentFirst)
  have nb: "normalizeContent (anonymized_content b)
      = ''urgent click here to claim your prize now''"
    by (simp only: assms normalize_urgentSecond)
  have nc: "normalizeContent (anonymized_content c) = ''urgent click here to claim prize now''"
    by (simp only: assms normalize_urgentThird)
  have ba: "\<not> isSimilar b a"
    unfolding isSimilar_def Let_def na nb using urgent_not_contained by simp
  have ca: "isSimilar c a"
    unfolding isSimilar_def Let_def na nc by simp
  from na nb ba ca show ?thesis by (simp add: deduplicatedScams_pair)
qed

theorem near_duplicate_example_witness:
  "anonymized_content urgentFirst = ''URGENT click here to claim prize now!!!''
   \<and> anonymized_content urgentSecond = ''urgent click here to claim your prize now''
   \<and> anonymized_content urgentThird = ''Urgent: click here to claim prize now''
   \<and> \<not> isSimilar urgentSecond urgentFirst
   \<and> deduplicatedScams [urgentFirst, urgentThird] = [urgentFirst]"
proof -
  have h: "anonymized_content urgentFirst = ''URGENT click here to claim prize now!!!''"
    "anonymized_content urgentSecond = ''urgent click here to claim your prize now''"
    "anonymized_content urgentThird = ''Urgent: click here to claim prize now''"
    by (simp_all add: urgentFirst_def urgentSecond_def urgentThird_def alert_def)
  from near_duplicate_example [OF h] h show ?thesis by simp
qed

text \<open>
  The claim as stated fails at its own input: the filter returns both entries.
\<close>

theorem near_duplicate_counterexample:
  "deduplicatedScams [urgentFirst, urgentSecond] = [urgentFirst, urgentSecond]"
proof -
  have "\<not> isSimilar urgentSecond urgentFirst"
    using urgent_not_contained
    by (simp add: isSimilar_def Let_def urgentFirst_def urgentSecond_def alert_def
        normalize_urgentFirst normalize_urgentSecond)
  then show ?thesis by (simp add: deduplicatedScams_pair)
qed


section \<open>The feed holds high-risk entries only\<close>

lemma dangerousScams_highRisk: "list_all highRisk (dangerousScams scams)"
  by (simp add: dangerousScams_def list_all_iff highRisk_def isHighRiskScore_def)

lemma deduplicatedScams_highRisk:
  "list_all highRisk xs \<Longrightarrow> list_all highRisk (deduplicatedScams xs)"
  using set_filterIndexed [of keepFirst xs] by (auto simp: list_all_iff deduplicatedScams_def)

lemma js_slice_highRisk: "list_all highRisk xs \<Longrightarrow> list_all highRisk (js_slice xs a b)"
  using set_js_slice [of xs a b] by (auto simp: list_all_iff)

lemma updateDisplayedScams_invariant:
  "list_all highRisk xs \<Longrightarrow> list_all highRisk (allScams st) \<Longrightarrow>
     feedInvariant (updateDisplayedScams xs page st)"
  by (simp add: feedInvariant_def updateDisplayedScams_def Let_def js_slice_highRisk)

lemma pageEffect_invariant:
  assumes "feedInvariant st"
  shows "feedInvariant (pageEffect st)"
proof (cases "length (allScams st) > 0")
  case True
  from assms have "list_all highRisk (allScams st)" by (simp add: feedInvariant_def)
  then have "feedInvariant (updateDisplayedScams (allScams st) (currentPage st) st)"
    by (simp add: updateDisplayedScams_invariant)
  with True show ?thesis by (simp add: pageEffect_def)
next
  case False
  with assms show ?thesis by (simp add: pageEffect_def)
qed

lemma fetchRecentScams_invariant:
  "feedInvariant st \<Longrightarrow> feedInvariant (fetchRecentScams showLoading page response st)"
proof (cases response)
  case None
  then show "feedInvariant st \<Longrightarrow> ?thesis"
    by (simp add: fetchRecentScams_def feedInvariant_def)
next
  case (Some scams)
  have d: "list_all highRisk (deduplicatedScams (dangerousScams scams))"
    by (intro deduplicatedScams_highRisk dangerousScams_highRisk)
  have "feedInvariant (updateDisplayedScams (deduplicatedScams (dangerousScams scams)) p
          (s\<lparr>allScams := deduplicatedScams (dangerousScams scams)\<rparr>))" for p s
    using d by (intro updateDisplayedScams_invariant) simp_all
  then have u: "list_all highRisk (js_slice (deduplicatedScams (dangerousScams scams)) a b)" for a b
    using d by (simp add: js_slice_highRisk)
  show ?thesis
    using d u by (simp add: Some fetchRecentScams_def feedInvariant_def Let_def updateDisplayedScams_def)
qed

lemma home_step_invariant:
  assumes "feedInvariant st"
  shows "feedInvariant (home_step st ev)"
proof (cases ev)
  case (Fetch showLoading page response)
  with assms show ?thesis
    by (cases response) (simp_all add: pageEffect_invariant fetchRecentScams_invariant)
next
  case PreviousPage
  from assms have "feedInvariant (handlePreviousPage st)"
    by (simp add: handlePreviousPage_def feedInvariant_def)
  with PreviousPage show ?thesis by (simp add: pageEffect_invariant)
next
  case NextPage
  from assms have "feedInvariant (handleNextPage st)"
    by (simp add: handleNextPage_def feedInvariant_def Let_def)
  with NextPage show ?thesis by (simp add: pageEffect_invariant)
qed

lemma foldl_home_step_invariant:
  "feedInvariant st \<Longrightarrow> feedInvariant (foldl home_step st evs)"
  by (induction evs arbitrary: st) (simp_all add: home_step_invariant)

lemma home_run_invariant: "feedInvariant (home_run evs)"
  unfolding home_run_def
  by (rule foldl_home_step_invariant) (simp add: feedInvariant_def initialHome_def)

text \<open>
  Claim C5. Whatever responses arrive and whatever pages are turned, every entry shown
  in the Recent Scam Alerts section has the classification dangerous, high or critical
  and a risk score, on the scale from 0 to 100, of at least 70; an entry that fails
  either test is never shown.
\<close>

theorem feed_only_high_risk:
  "(\<forall>e \<in> set (shownAlerts (home_run evs)).
      (classification e = ''dangerous'' \<or> classification e = ''high''
         \<or> classification e = ''critical'')
      \<and> scamRiskScore e \<ge> 70)
   \<and> (\<forall>e. \<not> isDangerousClassification e \<or> scamRiskScore e < 70 \<longrightarrow>
          e \<notin> set (shownAlerts (home_run evs)))"
  using home_run_invariant [of evs]
  by (auto simp: shownAlerts_def feedInvariant_def list_all_iff highRisk_def
      isDangerousClassification_def)

lemma example_dangerousScams:
  "dangerousScams [chainA, suspiciousOnly, lowScore, chainB, bankAlert]
     = [chainA, chainB, bankAlert]"
  by (simp add: dangerousScams_def isDangerousClassification_def isHighRiskScore_def
      scamRiskScore_def chainA_def chainB_def bankAlert_def lowScore_def suspiciousOnly_def
      alert_def)

lemma example_deduplicatedScams:
  "deduplicatedScams [chainA, chainB, bankAlert] = [chainA, bankAlert]"
  by (simp add: deduplicatedScams_def filterIndexed_def keepFirst_def findIndex_def upt_rec
      chain_similar bankAlert_dissimilar isSimilar_refl)

lemma example_shownAlerts:
  "shownAlerts (home_run
       [Fetch True 0 (Some [chainA, suspiciousOnly, lowScore, chainB, bankAlert])])
     = [chainA, bankAlert]"
  by (simp add: shownAlerts_def home_run_def fetchRecentScams_def pageEffect_def
      updateDisplayedScams_def js_slice_def pageCount_def scamsPerPage_def initialHome_def
      example_dangerousScams example_deduplicatedScams Let_def)

theorem feed_only_high_risk_witness:
  "chainA \<in> set (shownAlerts (home_run
       [Fetch True 0 (Some [chainA, suspiciousOnly, lowScore, chainB, bankAlert])]))
   \<and> classification chainA = ''dangerous'' \<and> scamRiskScore chainA \<ge> 70"
proof -
  let ?evs = "[Fetch True 0 (Some [chainA, suspiciousOnly, lowScore, chainB, bankAlert])]"
  have m: "chainA \<in> set (shownAlerts (home_run ?evs))"
    by (simp add: example_shownAlerts)
  from feed_only_high_risk [of ?evs, THEN conjunct1, rule_format, OF m]
  have "(classification chainA = ''dangerous'' \<or> classification chainA = ''high''
         \<or> classification chainA = ''critical'') \<and> scamRiskScore chainA \<ge> 70" .
  moreover have "classification chainA = ''dangerous''"
    by (simp add: chainA_def alert_def)
  ultimately show ?thesis using m by simp
qed


section \<open>The cut points of the CERT gates\<close>




section \<open>The two scales of the stored risk score\<close>

lemma digitChar_code: "d < 10 \<Longrightarrow> of_char (digitChar d) = (48 + d :: nat)"
proof -
  assume "d < 10"
  then consider "d = 0" | "d = 1" | "d = 2" | "d = 3" | "d = 4" | "d = 5" | "d = 6"
    | "d = 7" | "d = 8" | "d = 9"
    by atomize_elim arith
  then show ?thesis by cases (simp_all add: digitChar_def)
qed

lemma readNat_snoc: "readNat (ds @ [c]) = readNat ds * 10 + (of_char c - 48)"
  by (simp add: readNat_def)

lemma readNat_showNat: "readNat (showNat n) = n"
proof (induction n rule: showNat.induct)
  case (1 n)
  show ?case
  proof (cases "n < 10")
    case True
    then have "readNat (showNat n) = readNat [digitChar n]" by simp
    also have "\<dots> = n" using True by (simp add: readNat_def digitChar_code)
    finally show ?thesis .
  next
    case False
    then have "showNat n = showNat (n div 10) @ [digitChar (n mod 10)]"
      by (subst showNat.simps) simp
    then have "readNat (showNat n) = readNat (showNat (n div 10)) * 10 + n mod 10"
      by (simp add: readNat_snoc digitChar_code)
    with False "1.IH" show ?thesis by simp
  qed
qed

lemma Math_round_nearest:
  "real_of_int (Math_round x) \<le> x + 1 / 2 \<and> x - 1 / 2 < real_of_int (Math_round x)"
  unfolding Math_round_def by linarith

lemma Math_round_nonneg: "0 \<le> x \<Longrightarrow> 0 \<le> Math_round x"
  unfolding Math_round_def by simp

text \<open>
  Claim C10. For every feed entry the risk percentage, in the dangerous filter and on
  the card alike, is the stored \<open>risk_score\<close> itself when that is above 1 and a hundred
  times it otherwise. The badge shows that percentage rounded to the nearest integer,
  as a decimal numeral followed by a percent sign, and is red exactly above 70. A stored
  score above 0 and up to 1 is therefore read as a fraction, and an entry whose stored
  score is exactly 1 is rendered as ``100%'', never as ``1%'', and passes the filter's
  score test.
\<close>

theorem risk_scale:
  "scamRiskScore s = (if risk_score s > 1 then risk_score s else risk_score s * 100)
   \<and> displayedRiskScore s = scamRiskScore s
   \<and> (isHighRiskScore s
        \<longleftrightarrow> (if risk_score s > 1 then risk_score s else risk_score s * 100) \<ge> 70)
   \<and> riskBadgeText s
       = showInt (Math_round (if risk_score s > 1 then risk_score s else risk_score s * 100))
         @ ''%''
   \<and> real_of_int (Math_round (scamRiskScore s)) \<le> scamRiskScore s + 1 / 2
   \<and> scamRiskScore s - 1 / 2 < real_of_int (Math_round (scamRiskScore s))
   \<and> readNat (showNat n) = n
   \<and> (0 \<le> risk_score s \<longrightarrow>
        last (riskBadgeText s) = CHR ''%''
        \<and> readNat (butlast (riskBadgeText s)) = nat (Math_round (scamRiskScore s)))
   \<and> (riskBadgeClass s = ''bg-red-100 text-red-800'' \<longleftrightarrow> scamRiskScore s > 70)
   \<and> (0 < risk_score s \<and> risk_score s \<le> 1 \<longrightarrow>
        scamRiskScore s = risk_score s * 100 \<and> 0 < scamRiskScore s \<and> scamRiskScore s \<le> 100)
   \<and> (risk_score s = 1 \<longrightarrow>
        riskBadgeText s = ''100%'' \<and> riskBadgeText s \<noteq> ''1%'' \<and> isHighRiskScore s)"
proof -
  have a: "scamRiskScore s = (if risk_score s > 1 then risk_score s else risk_score s * 100)"
    "displayedRiskScore s = scamRiskScore s"
    "isHighRiskScore s
        \<longleftrightarrow> (if risk_score s > 1 then risk_score s else risk_score s * 100) \<ge> 70"
    by (simp_all add: scamRiskScore_def displayedRiskScore_def isHighRiskScore_def)
  have b: "riskBadgeText s
       = showInt (Math_round (if risk_score s > 1 then risk_score s else risk_score s * 100))
         @ ''%''"
    by (simp add: riskBadgeText_def displayedRiskScore_def)
  have c: "real_of_int (Math_round (scamRiskScore s)) \<le> scamRiskScore s + 1 / 2"
    "scamRiskScore s - 1 / 2 < real_of_int (Math_round (scamRiskScore s))"
    using Math_round_nearest [of "scamRiskScore s"] by simp_all
  have d: "0 \<le> risk_score s \<longrightarrow>
        last (riskBadgeText s) = CHR ''%''
        \<and> readNat (butlast (riskBadgeText s)) = nat (Math_round (scamRiskScore s))"
  proof
    assume "0 \<le> risk_score s"
    then have "0 \<le> scamRiskScore s" by (simp add: scamRiskScore_def)
    then have nn: "0 \<le> Math_round (scamRiskScore s)" by (rule Math_round_nonneg)
    have "riskBadgeText s = showInt (Math_round (scamRiskScore s)) @ ''%''"
      by (simp add: riskBadgeText_def a)
    with nn have "riskBadgeText s = showNat (nat (Math_round (scamRiskScore s))) @ ''%''"
      by (simp add: showInt_def)
    then show "last (riskBadgeText s) = CHR ''%''
        \<and> readNat (butlast (riskBadgeText s)) = nat (Math_round (scamRiskScore s))"
      by (simp add: readNat_showNat butlast_append del: showNat.simps)
  qed
  have e: "riskBadgeClass s = ''bg-red-100 text-red-800'' \<longleftrightarrow> scamRiskScore s > 70"
    by (simp add: riskBadgeClass_def a)
  have f: "0 < risk_score s \<and> risk_score s \<le> 1 \<longrightarrow>
        scamRiskScore s = risk_score s * 100 \<and> 0 < scamRiskScore s \<and> scamRiskScore s \<le> 100"
    by (simp add: scamRiskScore_def)
  have g: "risk_score s = 1 \<longrightarrow>
        riskBadgeText s = ''100%'' \<and> riskBadgeText s \<noteq> ''1%'' \<and> isHighRiskScore s"
    by (auto simp: scamRiskScore_def displayedRiskScore_def riskBadgeText_def Math_round_def
        showInt_def digitChar_def isHighRiskScore_def)
  note r = readNat_showNat [of n]
  from a b c d e f g r show ?thesis by blast
qed

theorem risk_scale_witness:
  "risk_score fullScale = 1 \<and> riskBadgeText fullScale = ''100%'' \<and> isHighRiskScore fullScale
   \<and> 0 < risk_score chainA \<and> risk_score chainA \<le> 1 \<and> scamRiskScore chainA = 90
   \<and> riskBadgeText percentScale = ''85%''
   \<and> riskBadgeText fractionScale = ''86%''
   \<and> riskBadgeText betweenScales = ''2%''
   \<and> 0 \<le> risk_score percentScale
   \<and> readNat (butlast (riskBadgeText percentScale)) = 85"
proof -
  have f: "risk_score fullScale = 1" by (simp add: fullScale_def alert_def)
  have a: "0 < risk_score chainA \<and> risk_score chainA \<le> 1" "risk_score chainA = 0.9"
    by (simp_all add: chainA_def alert_def)
  have p: "risk_score percentScale = 85" "risk_score fractionScale = 0.856"
    "risk_score betweenScales = 1.5"
    by (simp_all add: percentScale_def fractionScale_def betweenScales_def alert_def)
  note wf = risk_scale [of fullScale 0]
  note wa = risk_scale [of chainA 0]
  note wp = risk_scale [of percentScale 0]
  note wq = risk_scale [of fractionScale 0]
  note wb = risk_scale [of betweenScales 0]
  from wf f have 1: "riskBadgeText fullScale = ''100%''" "isHighRiskScore fullScale"
    by blast+
  from wa a have 2: "scamRiskScore chainA = 90" by simp
  from wp have "riskBadgeText percentScale
       = showInt (Math_round (if risk_score percentScale > 1 then risk_score percentScale
            else risk_score percentScale * 100)) @ ''%''"
    by blast
  then have 3: "riskBadgeText percentScale = ''85%''"
    by (simp add: p Math_round_def showInt_def digitChar_def)
  from wq have "riskBadgeText fractionScale
       = showInt (Math_round (if risk_score fractionScale > 1 then risk_score fractionScale
            else risk_score fractionScale * 100)) @ ''%''"
    by blast
  then have 4: "riskBadgeText fractionScale = ''86%''"
    by (simp add: p Math_round_def showInt_def digitChar_def)
  from wb have "riskBadgeText betweenScales
       = showInt (Math_round (if risk_score betweenScales > 1 then risk_score betweenScales
            else risk_score betweenScales * 100)) @ ''%''"
    by blast
  then have 5: "riskBadgeText betweenScales = ''2%''"
    by (simp add: p Math_round_def showInt_def digitChar_def)
  have nn: "0 \<le> risk_score percentScale" by (simp add: p)
  with wp have "readNat (butlast (riskBadgeText percentScale))
      = nat (Math_round (scamRiskScore percentScale))" by blast
  moreover have "scamRiskScore percentScale = 85" by (simp add: scamRiskScore_def p)
  ultimately have 6: "readNat (butlast (riskBadgeText percentScale)) = 85"
    by (simp add: Math_round_def)
  from f a 1 2 3 4 5 6 nn show ?thesis by simp
qed


section \<open>Rejection of malformed input\<close>

lemma trim_all_space:
  assumes "\<forall>c\<in>set s. isSpaceChar c"
  shows "trim s = []"
proof -
  from assms have d: "dropWhile isSpaceChar s = []" by simp
  show ?thesis unfolding trim_def d by simp
qed

lemma length_trim_le: "length (trim s) \<le> length s"
proof -
  have "length (trim s) \<le> length (dropWhile isSpaceChar s)"
    unfolding trim_def
    by (metis length_dropWhile_le length_rev)
  also have "\<dots> \<le> length s" by (rule length_dropWhile_le)
  finally show ?thesis .
qed

lemma trim_long: "trim (replicate 5001 CHR ''a'') = replicate 5001 CHR ''a''"
  by (simp add: trim_def dropWhile_replicate isSpaceChar_def code_unit_def)

lemma message_longScan:
  "message (handleHistoryClick longScan idleDetector) = replicate 5001 CHR ''a''"
  by (simp add: handleHistoryClick_def Let_def longScan_def or_string_def)

text \<open>
  Claim C8, as amended. A message that is empty or whitespace only is rejected by
  \<open>analyzeMessage\<close> with an input error and without any analysis request. Any other
  message is sent, trimmed and in full: \<open>analyzeMessage\<close> checks no length. The only
  cap is the message field's \<open>maxLength\<close> of 5000, which binds what a user types: a
  request made from a field text within it carries a non-empty content of at most 5000
  characters, while a message taken from the scan history is stored as it is. An
  upload that is not an image or is larger than 10 MB is rejected by
  \<open>handleFileUpload\<close> with an input error and is not handed to the analysis, while an
  image of at most 10 MB is.
\<close>

theorem malformed_input_rejected:
  "(trim (message st) = [] \<longrightarrow>
      analyzeMessage authenticated st
        = (st\<lparr>error := ''Please enter a message to analyze''\<rparr>, None))
   \<and> ((\<forall>c\<in>set (message st). isSpaceChar c) \<longrightarrow>
        snd (analyzeMessage authenticated st) = None
        \<and> error (fst (analyzeMessage authenticated st)) = ''Please enter a message to analyze'')
   \<and> (trim (message st) \<noteq> [] \<longrightarrow>
        map_option request_text (snd (analyzeMessage authenticated st))
          = Some (trim (message st)))
   \<and> message (onChangeMessage fieldText st) = fieldText
   \<and> (length fieldText \<le> maxLength \<longrightarrow>
        (\<forall>rq. snd (analyzeMessage authenticated (onChangeMessage fieldText st)) = Some rq \<longrightarrow>
           request_text rq \<noteq> [] \<and> length (request_text rq) \<le> 5000))
   \<and> message (handleHistoryClick scan st)
       = or_string (hist_content scan) (or_string (hist_message scan) [])
   \<and> (\<not> startsWith (file_type f) ''image/'' \<or> file_size f > 10 * 1024 * 1024 \<longrightarrow>
        snd (handleFileUpload (Some f) q) = None
        \<and> (qr_error (fst (handleFileUpload (Some f) q)) = ''Please select an image file''
           \<or> qr_error (fst (handleFileUpload (Some f) q))
              = ''File too large. Maximum size is 10MB''))
   \<and> (startsWith (file_type f) ''image/'' \<and> file_size f \<le> 10 * 1024 * 1024 \<longrightarrow>
        handleFileUpload (Some f) q = (q, Some f))"
proof (intro conjI)
  show "trim (message st) = [] \<longrightarrow>
      analyzeMessage authenticated st
        = (st\<lparr>error := ''Please enter a message to analyze''\<rparr>, None)"
    by (simp add: analyzeMessage_def)
  show "(\<forall>c\<in>set (message st). isSpaceChar c) \<longrightarrow>
        snd (analyzeMessage authenticated st) = None
        \<and> error (fst (analyzeMessage authenticated st)) = ''Please enter a message to analyze''"
    by (simp add: analyzeMessage_def trim_all_space)
  show "trim (message st) \<noteq> [] \<longrightarrow>
        map_option request_text (snd (analyzeMessage authenticated st))
          = Some (trim (message st))"
    by (simp add: analyzeMessage_def request_text_def)
  show "message (onChangeMessage fieldText st) = fieldText"
    by (simp add: onChangeMessage_def)
  show "length fieldText \<le> maxLength \<longrightarrow>
        (\<forall>rq. snd (analyzeMessage authenticated (onChangeMessage fieldText st)) = Some rq \<longrightarrow>
           request_text rq \<noteq> [] \<and> length (request_text rq) \<le> 5000)"
  proof (intro allI impI)
    fix rq
    assume len: "length fieldText \<le> maxLength"
      and a: "snd (analyzeMessage authenticated (onChangeMessage fieldText st)) = Some rq"
    from a have ne: "trim fieldText \<noteq> []" and rq: "request_text rq = trim fieldText"
      by (auto simp: analyzeMessage_def request_text_def onChangeMessage_def split: if_splits)
    have "length (trim fieldText) \<le> length fieldText" by (rule length_trim_le)
    also from len have "\<dots> \<le> 5000" by (simp add: maxLength_def)
    finally show "request_text rq \<noteq> [] \<and> length (request_text rq) \<le> 5000"
      using ne rq by simp
  qed
  show "message (handleHistoryClick scan st)
       = or_string (hist_content scan) (or_string (hist_message scan) [])"
    by (simp add: handleHistoryClick_def Let_def)
  show "\<not> startsWith (file_type f) ''image/'' \<or> file_size f > 10 * 1024 * 1024 \<longrightarrow>
        snd (handleFileUpload (Some f) q) = None
        \<and> (qr_error (fst (handleFileUpload (Some f) q)) = ''Please select an image file''
           \<or> qr_error (fst (handleFileUpload (Some f) q))
              = ''File too large. Maximum size is 10MB'')"
    by (simp add: handleFileUpload_def)
  show "startsWith (file_type f) ''image/'' \<and> file_size f \<le> 10 * 1024 * 1024 \<longrightarrow>
        handleFileUpload (Some f) q = (q, Some f)"
    by (simp add: handleFileUpload_def)
qed

theorem malformed_input_rejected_witness:
  "trim (message blankState) = []
   \<and> analyzeMessage True blankState
       = (blankState\<lparr>error := ''Please enter a message to analyze''\<rparr>, None)
   \<and> length ''  verify your account '' \<le> maxLength
   \<and> map_option request_text
        (snd (analyzeMessage False (onChangeMessage ''  verify your account '' idleDetector)))
       = Some ''verify your account''
   \<and> \<not> startsWith (file_type pdfFile) ''image/''
   \<and> handleFileUpload (Some pdfFile) idleScanner
       = (idleScanner\<lparr>qr_error := ''Please select an image file''\<rparr>, None)
   \<and> file_size hugeImage > 10 * 1024 * 1024
   \<and> snd (handleFileUpload (Some hugeImage) idleScanner) = None"
proof -
  have b: "trim (message blankState) = []" by code_simp
  have p: "\<not> startsWith (file_type pdfFile) ''image/''"
    by (simp add: pdfFile_def startsWith_def)
  have g: "file_size hugeImage > 10 * 1024 * 1024" by (simp add: hugeImage_def)
  have l: "length ''  verify your account '' \<le> maxLength" by (simp add: maxLength_def)
  note w = malformed_input_rejected
    [of blankState True "''  verify your account ''" longScan hugeImage idleScanner]
  note v = malformed_input_rejected
    [of "onChangeMessage ''  verify your account '' idleDetector" False
      "''  verify your account ''" longScan pdfFile idleScanner]
  have 1: "analyzeMessage True blankState
       = (blankState\<lparr>error := ''Please enter a message to analyze''\<rparr>, None)"
    using w b by blast
  have 2: "snd (handleFileUpload (Some hugeImage) idleScanner) = None"
    using w g by blast
  have t: "trim (message (onChangeMessage ''  verify your account '' idleDetector))
      = ''verify your account''"
    by code_simp
  then have "trim (message (onChangeMessage ''  verify your account '' idleDetector)) \<noteq> []"
    by simp
  with v have "map_option request_text
        (snd (analyzeMessage False (onChangeMessage ''  verify your account '' idleDetector)))
       = Some (trim (message (onChangeMessage ''  verify your account '' idleDetector)))"
    by blast
  with t have 3: "map_option request_text
        (snd (analyzeMessage False (onChangeMessage ''  verify your account '' idleDetector)))
       = Some ''verify your account''" by simp
  have 4: "handleFileUpload (Some pdfFile) idleScanner
       = (idleScanner\<lparr>qr_error := ''Please select an image file''\<rparr>, None)"
    using p by (simp add: handleFileUpload_def)
  from b p g l 1 2 3 4 show ?thesis by simp
qed

text \<open>
  The claim as stated fails for an oversized message: a history entry of 5001
  characters, once clicked, is analyzed in full and without an error.
\<close>

theorem malformed_input_rejected_counterexample:
  "length (message (handleHistoryClick longScan idleDetector)) = 5001
   \<and> map_option request_text
        (snd (analyzeMessage True (handleHistoryClick longScan idleDetector)))
       = Some (replicate 5001 CHR ''a'')
   \<and> error (fst (analyzeMessage True (handleHistoryClick longScan idleDetector))) = []
   \<and> length (replicate 5001 CHR ''a'') > maxLength"
  by (simp add: message_longScan analyzeMessage_def trim_long request_text_def maxLength_def)


section \<open>Fusion of the signals\<close>

lemma example_score:
  "fused_score (assess exampleConfig (Some zeroHeuristic) (Some safeMl) (Some flaggedIntel)) = 20"
  by (simp add: assess_def Let_def weighted_score_def available_parts_def exampleConfig_def
      default_config_def zeroHeuristic_def safeMl_def flaggedIntel_def)


text \<open>
  Claim C7. Whatever the heuristic and the classifier signal say, and whatever weighted score
  results from them, a threat-intel result that is flagged with a high hit count makes
  the classification dangerous.
\<close>

theorem hard_override:
  "verdict ts = Flagged \<Longrightarrow> high_hit_count cfg \<le> hit_count ts \<Longrightarrow>
     fused_class (assess cfg h m (Some ts)) = Dangerous"
  by (simp add: assess_def flagged_high_def Let_def)

theorem hard_override_witness:
  "verdict flaggedIntel = Flagged \<and> high_hit_count exampleConfig \<le> hit_count flaggedIntel
   \<and> fused_score (assess exampleConfig (Some zeroHeuristic) (Some safeMl) (Some flaggedIntel)) = 20
   \<and> classify_score exampleConfig 20 = Safe
   \<and> fused_class (assess exampleConfig (Some zeroHeuristic) (Some safeMl) (Some flaggedIntel))
       = Dangerous"
proof -
  have v: "verdict flaggedIntel = Flagged" by (simp add: flaggedIntel_def)
  have n: "high_hit_count exampleConfig \<le> hit_count flaggedIntel"
    by (simp add: flaggedIntel_def exampleConfig_def default_config_def)
  have c: "classify_score exampleConfig 20 = Safe"
    by (simp add: classify_score_def exampleConfig_def default_config_def)
  from hard_override [OF v n] v n c example_score show ?thesis by simp
qed

lemma classify_score_known: "classify_score cfg score \<noteq> Unknown"
  by (simp add: classify_score_def)

lemma critical_floor_known: "c \<noteq> Unknown \<Longrightarrow> critical_floor h c \<noteq> Unknown"
  by (simp add: critical_floor_def split: option.splits)

lemma assess_unknown_iff:
  "fused_class (assess cfg h m t) = Unknown \<longleftrightarrow> h = None \<and> m = None \<and> t = None"
  using critical_floor_known [OF classify_score_known]
  by (auto simp: assess_def Let_def)

text \<open>
  Claim C6, as amended. When all three signals are unavailable, \<open>assess()\<close> returns the
  classification unknown with risk score 0 and an explanation saying that no signal
  was available; it always returns a result, and unknown is never replaced by safe.
  In the message detector a result without a classification is presented as
  ``unknown'', with risk score 0 when the score is missing too; it is treated as safe
  exactly when the response itself carries \<open>is_safe = true\<close>, and never on the fallback
  path.
\<close>

theorem total_signal_failure:
  "assess cfg None None None
     = \<lparr>fused_score = 0, fused_class = Unknown, fused_explanation = [NoSignalAvailable]\<rparr>
   \<and> fused_class (assess cfg None None None) \<noteq> Safe
   \<and> (fused_class (assess cfg h m t) = Unknown \<longleftrightarrow> h = None \<and> m = None \<and> t = None)
   \<and> (resp_classification r = None \<longrightarrow>
        res_classification (scanResultToResult r) = ''unknown''
        \<and> res_prediction (scanResultToResult r) = ''unknown''
        \<and> (res_is_safe (scanResultToResult r) \<longleftrightarrow> resp_is_safe r = Some True)
        \<and> res_classification (fallbackToResult r) = ''unknown''
        \<and> \<not> res_is_safe (fallbackToResult r))
   \<and> (resp_risk_score r = None \<longrightarrow>
        res_risk_score (scanResultToResult r) = 0 \<and> res_risk_score (fallbackToResult r) = 0)"
  by (simp add: assess_unknown_iff)
     (simp add: assess_def scanResultToResult_def fallbackToResult_def or_string_def
      or_number_def)

theorem total_signal_failure_witness:
  "resp_classification emptyResponse = None \<and> resp_risk_score emptyResponse = None
   \<and> res_classification (scanResultToResult emptyResponse) = ''unknown''
   \<and> \<not> res_is_safe (scanResultToResult emptyResponse)
   \<and> res_risk_score (scanResultToResult emptyResponse) = 0"
proof -
  have h: "resp_classification emptyResponse = None" "resp_risk_score emptyResponse = None"
    "resp_is_safe emptyResponse \<noteq> Some True"
    by (simp_all add: emptyResponse_def)
  note w = total_signal_failure [of _ _ _ _ emptyResponse]
  from w [THEN conjunct2, THEN conjunct2, THEN conjunct2, THEN conjunct1, rule_format, OF h(1)]
    w [THEN conjunct2, THEN conjunct2, THEN conjunct2, THEN conjunct2, rule_format, OF h(2)]
    h
  show ?thesis by simp
qed

text \<open>
  The claim as stated fails for a response that has no classification but carries
  \<open>is_safe = true\<close>: it is presented as ``unknown'' and yet treated as safe.
\<close>

theorem total_signal_failure_counterexample:
  "resp_classification safeFlagOnly = None
   \<and> res_classification (scanResultToResult safeFlagOnly) = ''unknown''
   \<and> res_is_safe (scanResultToResult safeFlagOnly)
   \<and> resultHeadline (scanResultToResult safeFlagOnly) = ''LEGITIMATE MESSAGE''"
  by (simp add: safeFlagOnly_def scanResultToResult_def resultHeadline_def or_string_def)


section \<open>Classification thresholds\<close>





end
